theory Spec2Isabelle
  imports Main
begin

section \<open>Micro-DCA vault, factory and relayer\<close>

text \<open>
  A shallow embedding of \<^verbatim>\<open>contracts/src/MicroDcaVault.sol\<close> and
  \<^verbatim>\<open>contracts/src/VaultFactory.sol\<close> (which also holds the \<^verbatim>\<open>Relayer\<close> contract).
  An \<^verbatim>\<open>address\<close> is a natural number, \<open>0\<close> being \<^verbatim>\<open>address(0)\<close>. A \<^verbatim>\<open>uint256\<close> is a
  natural number; Solidity 0.8 checks every \<^verbatim>\<open>+\<close>, \<^verbatim>\<open>-\<close> and \<^verbatim>\<open>*\<close> and reverts with a
  panic when the result leaves the range, which the model writes out. A call that
  reverts returns \<open>Inl\<close> of the error and no state: the transaction is rolled back.
\<close>

subsection \<open>Errors, events, checked arithmetic\<close>

type_synonym address = nat

definition MAX_UINT256 :: nat where
  "MAX_UINT256 = 2 ^ 256 - 1"

datatype error =
    NotKeeper
  | IntervalNotElapsed
  | MaxSlippageExceeded
  | CapExceeded
  | Paused
  | ZeroAddress
  | InvalidParams
  | NotRelayer
  | MetaTxExpired
  | Require string
  | Panic
  | RevertNoData
  | OwnableUnauthorizedAccount
  | OwnableInvalidOwner
  | ReentrancyGuardReentrantCall
  | ECDSAInvalidSignature
  | CallToNonContract
  | ZeroDeposit
  | InsufficientShares

datatype event =
    Fill nat nat nat
  | ConfigUpdated nat nat nat nat address bool
  | VaultCreated address address address address
  | VaultCopied address address address
  | MetaTxExecuted address address nat nat nat
  | RelayerFeeUpdated nat nat

fun bindE :: "error + 'a \<Rightarrow> ('a \<Rightarrow> error + 'b) \<Rightarrow> error + 'b" where
  "bindE (Inl e) f = Inl e"
| "bindE (Inr x) f = f x"

definition checked_add :: "nat \<Rightarrow> nat \<Rightarrow> error + nat" where
  "checked_add a b = (if a + b \<le> MAX_UINT256 then Inr (a + b) else Inl Panic)"

definition checked_sub :: "nat \<Rightarrow> nat \<Rightarrow> error + nat" where
  "checked_sub a b = (if b \<le> a then Inr (a - b) else Inl Panic)"

definition checked_mul :: "nat \<Rightarrow> nat \<Rightarrow> error + nat" where
  "checked_mul a b = (if a * b \<le> MAX_UINT256 then Inr (a * b) else Inl Panic)"

subsection \<open>ERC-20 tokens\<close>

text \<open>
  The token ledger follows \<^verbatim>\<open>MockERC20\<close> of the repository's test and deployment
  script: \<open>balanceOf tk t a\<close> is the balance of holder \<open>a\<close> in token \<open>t\<close>,
  \<open>allowance tk t a s\<close> what spender \<open>s\<close> may move from \<open>a\<close>. The second argument of
  each operation is the token, the third is \<^verbatim>\<open>msg.sender\<close>. \<^verbatim>\<open>SafeERC20\<close>'s
  \<^verbatim>\<open>safeTransfer\<close>, \<^verbatim>\<open>safeTransferFrom\<close> and \<^verbatim>\<open>forceApprove\<close> revert when the token call
  does and are these calls otherwise.
\<close>

record tokens =
  balanceOf :: "address \<Rightarrow> address \<Rightarrow> nat"
  allowance :: "address \<Rightarrow> address \<Rightarrow> address \<Rightarrow> nat"

definition setBalance :: "tokens \<Rightarrow> address \<Rightarrow> address \<Rightarrow> nat \<Rightarrow> tokens" where
  "setBalance tk t a n = tk\<lparr>balanceOf := (balanceOf tk)(t := (balanceOf tk t)(a := n))\<rparr>"

definition setAllowance :: "tokens \<Rightarrow> address \<Rightarrow> address \<Rightarrow> address \<Rightarrow> nat \<Rightarrow> tokens" where
  "setAllowance tk t a s n =
     tk\<lparr>allowance := (allowance tk)(t := (allowance tk t)(a := (allowance tk t a)(s := n)))\<rparr>"

definition transfer :: "tokens \<Rightarrow> address \<Rightarrow> address \<Rightarrow> address \<Rightarrow> nat \<Rightarrow> error + tokens" where
  "transfer tk t sender to amount =
     bindE (checked_sub (balanceOf tk t sender) amount) (\<lambda>b1.
       let tk1 = setBalance tk t sender b1 in
       bindE (checked_add (balanceOf tk1 t to) amount) (\<lambda>b2.
         Inr (setBalance tk1 t to b2)))"

definition approve :: "tokens \<Rightarrow> address \<Rightarrow> address \<Rightarrow> address \<Rightarrow> nat \<Rightarrow> tokens" where
  "approve tk t sender spender amount = setAllowance tk t sender spender amount"

definition transferFrom ::
  "tokens \<Rightarrow> address \<Rightarrow> address \<Rightarrow> address \<Rightarrow> address \<Rightarrow> nat \<Rightarrow> error + tokens" where
  "transferFrom tk t sender from to amount =
     bindE (checked_sub (allowance tk t from sender) amount) (\<lambda>al.
       let tk1 = setAllowance tk t from sender al in
       bindE (checked_sub (balanceOf tk1 t from) amount) (\<lambda>b1.
         let tk2 = setBalance tk1 t from b1 in
         bindE (checked_add (balanceOf tk2 t to) amount) (\<lambda>b2.
           Inr (setBalance tk2 t to b2))))"

subsection \<open>The router\<close>

text \<open>
  \<^verbatim>\<open>IRouter.swapExactTokensForTokens\<close> is external code. A router is a function of the
  token ledger, \<^verbatim>\<open>block.timestamp\<close>, \<^verbatim>\<open>msg.sender\<close>, \<^verbatim>\<open>amountIn\<close>, \<^verbatim>\<open>amountOutMin\<close>,
  \<^verbatim>\<open>path\<close>, \<^verbatim>\<open>to\<close> and \<^verbatim>\<open>deadline\<close>, giving a revert or the amounts and the new ledger.
  \<open>mockSwap\<close> is \<^verbatim>\<open>MockRouter\<close> of the test file, deployed at address \<open>r\<close> with the
  given \<^verbatim>\<open>rate\<close> and \<^verbatim>\<open>slippageSimulation\<close>.
\<close>

type_synonym router_fn =
  "tokens \<Rightarrow> nat \<Rightarrow> address \<Rightarrow> nat \<Rightarrow> nat \<Rightarrow> address list \<Rightarrow> address \<Rightarrow> nat
     \<Rightarrow> error + (nat list \<times> tokens)"

definition mockSwap :: "address \<Rightarrow> nat \<Rightarrow> nat \<Rightarrow> router_fn" where
  "mockSwap r rate slippageSimulation tk now sender amountIn amountOutMin path to deadline =
     (if \<not> deadline \<ge> now then Inl (Require ''EXPIRED'')
      else if \<not> length path = 2 then Inl (Require ''INVALID_PATH'')
      else
        bindE (checked_mul amountIn rate) (\<lambda>p.
        bindE (checked_mul (p div 10 ^ 18) slippageSimulation) (\<lambda>q.
        bindE (checked_sub (p div 10 ^ 18) (q div 10000)) (\<lambda>amountOut.
          if \<not> amountOut \<ge> amountOutMin then Inl (Require ''INSUFFICIENT_OUTPUT'')
          else
            bindE (transferFrom tk (path ! 0) r sender r amountIn) (\<lambda>tk1.
            bindE (transfer tk1 (path ! 1) r to amountOut) (\<lambda>tk2.
              Inr ([amountIn, amountOut], tk2)))))))"

subsection \<open>The vault\<close>

text \<open>
  The storage of one \<^verbatim>\<open>MicroDcaVault\<close>. \<open>self\<close> is \<^verbatim>\<open>address(this)\<close>, \<open>owner\<close> the
  \<^verbatim>\<open>Ownable\<close> owner, \<open>entered\<close> the status of \<^verbatim>\<open>ReentrancyGuard\<close>; \<open>totalSupply\<close> and
  \<open>shares\<close> are the share ledger of the inherited ERC-20, \<open>shareName\<close> and
  \<open>shareSymbol\<close> its \<^verbatim>\<open>name()\<close> and \<^verbatim>\<open>symbol()\<close>. \<^verbatim>\<open>asset()\<close> is the token given to the
  \<^verbatim>\<open>ERC4626\<close> constructor, \<open>quoteToken\<close>.
\<close>

record MicroDcaVault =
  self :: address
  router :: address
  baseToken :: address
  quoteToken :: address
  owner :: address
  intervalSeconds :: nat
  maxSlippageBps :: nat
  perCycleQuoteCap :: nat
  feeBps :: nat
  keeper :: address
  paused :: bool
  lastExec :: nat
  totalFilledQuote :: nat
  totalFilledBase :: nat
  entered :: bool
  totalSupply :: nat
  shares :: "address \<Rightarrow> nat"
  shareName :: string
  shareSymbol :: string

text \<open>
  The constructor, run at time \<open>now\<close> for the contract created at address \<open>a\<close>. The
  arguments of the base constructors come first: \<^verbatim>\<open>ERC20(_base).symbol()\<close> is an
  external call to the base token, and \<open>symbolOf b\<close> is its answer, \<open>None\<close> where the
  address holds no code (as \<^verbatim>\<open>address(0)\<close> does) or the call reverts; the constructor
  then reverts without data. \<^verbatim>\<open>Ownable(_owner)\<close> rejects the null owner next, and the
  body checks the three addresses. Storage the constructor does not assign keeps its
  zero value: \<open>keeper\<close>, \<open>paused\<close> and the counters.
\<close>

definition MicroDcaVault_constructor ::
  "(address \<Rightarrow> string option) \<Rightarrow> address \<Rightarrow> nat
     \<Rightarrow> address \<Rightarrow> address \<Rightarrow> address \<Rightarrow> nat \<Rightarrow> nat \<Rightarrow> nat \<Rightarrow> nat \<Rightarrow> address
     \<Rightarrow> error + MicroDcaVault" where
  "MicroDcaVault_constructor symbolOf a now r b q interval slippage cap fee own =
     (case symbolOf b of
        None \<Rightarrow> Inl RevertNoData
      | Some baseSymbol \<Rightarrow>
          if own = 0 then Inl OwnableInvalidOwner
          else if r = 0 \<or> b = 0 \<or> q = 0 then Inl ZeroAddress
          else Inr \<lparr> self = a, router = r, baseToken = b, quoteToken = q, owner = own,
                     intervalSeconds = interval, maxSlippageBps = slippage,
                     perCycleQuoteCap = cap, feeBps = fee, keeper = 0, paused = False,
                     lastExec = now, totalFilledQuote = 0, totalFilledBase = 0,
                     entered = False, totalSupply = 0, shares = (\<lambda>_. 0),
                     shareName = ''MicroDCA-'' @ baseSymbol,
                     shareSymbol = ''v'' @ baseSymbol \<rparr>)"

definition setConfig ::
  "address \<Rightarrow> MicroDcaVault \<Rightarrow> nat \<Rightarrow> nat \<Rightarrow> nat \<Rightarrow> nat \<Rightarrow> address \<Rightarrow> bool
     \<Rightarrow> error + (MicroDcaVault \<times> event list)" where
  "setConfig sender v interval slippage cap fee kp ps =
     (if sender \<noteq> owner v then Inl OwnableUnauthorizedAccount
      else Inr (v\<lparr>intervalSeconds := interval, maxSlippageBps := slippage,
                  perCycleQuoteCap := cap, feeBps := fee, keeper := kp, paused := ps\<rparr>,
                [ConfigUpdated interval slippage cap fee kp ps]))"

definition nextExecTime :: "MicroDcaVault \<Rightarrow> error + nat" where
  "nextExecTime v = checked_add (lastExec v) (intervalSeconds v)"

definition getConfig :: "MicroDcaVault \<Rightarrow> nat \<times> nat \<times> nat \<times> nat \<times> address \<times> bool" where
  "getConfig v =
     (intervalSeconds v, maxSlippageBps v, perCycleQuoteCap v, feeBps v, keeper v, paused v)"

definition previewCycleOut :: "nat \<Rightarrow> nat" where
  "previewCycleOut quoteAmount = quoteAmount"

definition totalAssets :: "MicroDcaVault \<Rightarrow> tokens \<Rightarrow> error + nat" where
  "totalAssets v tk =
     checked_add (balanceOf tk (quoteToken v) (self v)) (balanceOf tk (baseToken v) (self v))"

text \<open>
  \<^verbatim>\<open>executeCycle\<close>, called by \<open>sender\<close> at time \<open>now\<close> with router code \<open>R\<close> at the
  vault's router address. The modifiers run first, in the order written:
  \<^verbatim>\<open>notPaused\<close>, then \<^verbatim>\<open>nonReentrant\<close>. The result is the returned \<^verbatim>\<open>baseOut\<close>, the new
  storage, the new token ledger and the events.
\<close>

definition executeCycle ::
  "router_fn \<Rightarrow> nat \<Rightarrow> address \<Rightarrow> MicroDcaVault \<Rightarrow> tokens \<Rightarrow> nat \<Rightarrow> nat \<Rightarrow> address
     \<Rightarrow> error + (nat \<times> MicroDcaVault \<times> tokens \<times> event list)" where
  "executeCycle R now sender v tk quoteAmount minOut beneficiary =
     (if paused v then Inl Paused
      else if entered v then Inl ReentrancyGuardReentrantCall
      else if keeper v \<noteq> 0 \<and> sender \<noteq> keeper v then Inl NotKeeper
      else
        bindE (checked_add (lastExec v) (intervalSeconds v)) (\<lambda>next.
          if now < next then Inl IntervalNotElapsed
          else if quoteAmount > perCycleQuoteCap v then Inl CapExceeded
          else
            let avail = balanceOf tk (quoteToken v) (self v);
                quoteIn = (if quoteAmount > avail then avail else quoteAmount)
            in
              if \<not> quoteIn > 0 then Inl (Require ''NoQuote'')
              else
                let path = [quoteToken v, baseToken v];
                    tk1 = approve tk (quoteToken v) (self v) (router v) 0;
                    tk2 = approve tk1 (quoteToken v) (self v) (router v) quoteIn
                in
                  bindE (checked_add now 300) (\<lambda>deadline.
                  bindE (R tk2 now (self v) quoteIn minOut path (self v) deadline)
                    (\<lambda>(amounts, tk3).
                      if amounts = [] then Inl Panic
                      else
                        let routerOut = last amounts in
                          if \<not> routerOut \<ge> minOut then Inl (Require ''Slippage'')
                          else
                            bindE (checked_mul routerOut (feeBps v)) (\<lambda>p.
                              let fee = p div 10000 in
                                bindE
                                  (if fee > 0
                                   then bindE (transfer tk3 (baseToken v) (self v) (owner v) fee)
                                          (\<lambda>tk4. bindE (checked_sub routerOut fee)
                                             (\<lambda>net. Inr (tk4, net)))
                                   else Inr (tk3, routerOut))
                                  (\<lambda>(tk5, baseOut).
                                    bindE (checked_add (totalFilledQuote v) quoteIn) (\<lambda>tq.
                                    bindE (checked_add (totalFilledBase v) baseOut) (\<lambda>tb.
                                      Inr (baseOut,
                                           v\<lparr>lastExec := now, totalFilledQuote := tq,
                                              totalFilledBase := tb\<rparr>,
                                           tk5,
                                           [Fill now quoteIn baseOut])))))))))"

text \<open>
  Modelled from the spec: \<^verbatim>\<open>deposit\<close> and \<^verbatim>\<open>redeem\<close>, which the vault inherits from
  the \<^verbatim>\<open>ERC4626\<close> base contract; that contract is not among the sources. The spec's
  share ledger: a zero-amount deposit is rejected as a caller error; \<open>assets\<close> quote
  tokens move from the caller into the vault; the first depositor receives shares 1:1
  with the deposited assets, later depositors \<open>assets * totalSupply / totalAssets\<close>;
  the receiver's share balance and the total supply grow by the minted amount, which
  is returned. \<^verbatim>\<open>redeem\<close> is the inverse: it fails when the owner's share balance is
  insufficient, burns the shares and transfers the corresponding asset amount
  \<open>shares * totalAssets / totalSupply\<close> to the receiver. \<open>totalAssets\<close> is the vault's
  own override, above. The divisions panic on a zero divisor, as Solidity's do.
\<close>

definition deposit ::
  "address \<Rightarrow> MicroDcaVault \<Rightarrow> tokens \<Rightarrow> nat \<Rightarrow> address
     \<Rightarrow> error + (nat \<times> MicroDcaVault \<times> tokens)" where
  "deposit sender v tk assets receiver =
     (if assets = 0 then Inl ZeroDeposit
      else
        bindE (totalAssets v tk) (\<lambda>ta.
        bindE (if totalSupply v = 0 then Inr assets
               else if ta = 0 then Inl Panic
               else bindE (checked_mul assets (totalSupply v)) (\<lambda>p. Inr (p div ta)))
          (\<lambda>minted.
            bindE (transferFrom tk (quoteToken v) (self v) sender (self v) assets) (\<lambda>tk1.
            bindE (checked_add (totalSupply v) minted) (\<lambda>supply.
              Inr (minted,
                   v\<lparr>totalSupply := supply,
                      shares := (shares v)(receiver := shares v receiver + minted)\<rparr>,
                   tk1))))))"

definition redeem ::
  "address \<Rightarrow> MicroDcaVault \<Rightarrow> tokens \<Rightarrow> nat \<Rightarrow> address \<Rightarrow> address
     \<Rightarrow> error + (nat \<times> MicroDcaVault \<times> tokens)" where
  "redeem sender v tk burned receiver own =
     (if shares v own < burned then Inl InsufficientShares
      else
        bindE (totalAssets v tk) (\<lambda>ta.
          if totalSupply v = 0 then Inl Panic
          else
            bindE (checked_mul burned ta) (\<lambda>p.
            bindE (transfer tk (quoteToken v) (self v) receiver (p div totalSupply v)) (\<lambda>tk1.
            bindE (checked_sub (totalSupply v) burned) (\<lambda>supply.
              Inr (p div totalSupply v,
                   v\<lparr>totalSupply := supply,
                      shares := (shares v)(own := shares v own - burned)\<rparr>,
                   tk1))))))"

subsection \<open>The factory\<close>

text \<open>
  \<open>factoryRouter\<close> is the factory's \<^verbatim>\<open>router\<close>. \<^verbatim>\<open>createVault\<close> is called by \<open>sender\<close>
  at time \<open>now\<close>; \<open>a\<close> is the address the deployment gives the new contract and
  \<open>symbolOf\<close> the tokens' answers to \<^verbatim>\<open>symbol()\<close>, for the constructor. The result is
  that address, the factory's new storage, the storage of the new vault and the
  events.
\<close>

record VaultFactory =
  factoryRouter :: address
  allVaults :: "address list"
  isVault :: "address \<Rightarrow> bool"

definition VaultFactory_constructor :: "address \<Rightarrow> error + VaultFactory" where
  "VaultFactory_constructor r =
     (if r = 0 then Inl ZeroAddress
      else Inr \<lparr> factoryRouter = r, allVaults = [], isVault = (\<lambda>_. False) \<rparr>)"

definition createVault ::
  "(address \<Rightarrow> string option) \<Rightarrow> address \<Rightarrow> nat \<Rightarrow> address \<Rightarrow> VaultFactory
     \<Rightarrow> address \<Rightarrow> address \<Rightarrow> nat \<Rightarrow> nat \<Rightarrow> nat \<Rightarrow> nat \<Rightarrow> address
     \<Rightarrow> error + (address \<times> VaultFactory \<times> MicroDcaVault \<times> event list)" where
  "createVault symbolOf a now sender f base quote interval slippage cap fee kp =
     (if base = 0 \<or> quote = 0 then Inl ZeroAddress
      else if base = quote then Inl InvalidParams
      else if interval = 0 \<or> slippage > 10000 \<or> fee > 10000 then Inl InvalidParams
      else
        bindE (MicroDcaVault_constructor symbolOf a now (factoryRouter f) base quote
                 interval slippage cap fee sender) (\<lambda>v.
          Inr (a,
               f\<lparr>allVaults := allVaults f @ [a], isVault := (isVault f)(a := True)\<rparr>,
               v,
               [VaultCreated a base quote sender])))"

subsection \<open>The relayer\<close>

text \<open>
  \<open>relayerSelf\<close> is the relayer's own address, \<open>relayerOwner\<close> its \<^verbatim>\<open>Ownable\<close> owner.
  The EIP-712 hash and \<^verbatim>\<open>ECDSA.recover\<close> are a parameter \<open>recover\<close>: the signer of an
  intent and a signature, or \<open>None\<close> where the library reverts. \<open>vaults\<close> gives the
  storage of the vault deployed at an address.
\<close>

definition MAX_RELAYER_FEE_BPS :: nat where
  "MAX_RELAYER_FEE_BPS = 1000"

record Relayer =
  relayerSelf :: address
  relayerOwner :: address
  relayerFeeBps :: nat
  nonces :: "address \<Rightarrow> nat"

record ExecuteCycle =
  vault :: address
  quoteAmount :: nat
  minOut :: nat
  beneficiary :: address
  deadline :: nat
  nonce :: nat

definition Relayer_constructor :: "address \<Rightarrow> nat \<Rightarrow> address \<Rightarrow> error + Relayer" where
  "Relayer_constructor a initialFee own =
     (if own = 0 then Inl OwnableInvalidOwner
      else if initialFee > MAX_RELAYER_FEE_BPS then Inl InvalidParams
      else Inr \<lparr> relayerSelf = a, relayerOwner = own, relayerFeeBps = initialFee,
                 nonces = (\<lambda>_. 0) \<rparr>)"

definition setRelayerFee :: "address \<Rightarrow> Relayer \<Rightarrow> nat \<Rightarrow> error + (Relayer \<times> event list)" where
  "setRelayerFee sender rl fee =
     (if sender \<noteq> relayerOwner rl then Inl OwnableUnauthorizedAccount
      else if fee > MAX_RELAYER_FEE_BPS then Inl InvalidParams
      else Inr (rl\<lparr>relayerFeeBps := fee\<rparr>, [RelayerFeeUpdated (relayerFeeBps rl) fee]))"

text \<open>
  \<^verbatim>\<open>executeMetaCycle\<close>, called by \<open>sender\<close> at time \<open>now\<close>. The vault sees the relayer
  as its caller. A revert of the vault is re-thrown as it is; a revert inside the
  success branch of the \<^verbatim>\<open>try\<close> is not caught and reverts the call as well.
\<close>

definition executeMetaCycle ::
  "(ExecuteCycle \<Rightarrow> 'sig \<Rightarrow> address option) \<Rightarrow> router_fn \<Rightarrow> nat \<Rightarrow> address \<Rightarrow> Relayer
     \<Rightarrow> (address \<Rightarrow> MicroDcaVault option) \<Rightarrow> tokens \<Rightarrow> ExecuteCycle \<Rightarrow> 'sig
     \<Rightarrow> error + (nat \<times> Relayer \<times> MicroDcaVault \<times> tokens \<times> event list)" where
  "executeMetaCycle recover R now sender rl vaults tk intent signature =
     (if now > deadline intent then Inl MetaTxExpired
      else
        case recover intent signature of
          None \<Rightarrow> Inl ECDSAInvalidSignature
        | Some signer \<Rightarrow>
            if nonce intent \<noteq> nonces rl signer then Inl InvalidParams
            else
              bindE (checked_add (nonces rl signer) 1) (\<lambda>n.
                let rl1 = rl\<lparr>nonces := (nonces rl)(signer := n)\<rparr> in
                  case vaults (vault intent) of
                    None \<Rightarrow> Inl CallToNonContract
                  | Some v \<Rightarrow>
                      bindE (executeCycle R now (relayerSelf rl) v tk (quoteAmount intent)
                               (minOut intent) (beneficiary intent))
                        (\<lambda>(baseReceived, v1, tk1, evs).
                          bindE (checked_mul baseReceived (relayerFeeBps rl)) (\<lambda>p.
                            let relayerFee = p div 10000 in
                              bindE
                                (if relayerFee > 0
                                 then bindE (transferFrom tk1 (baseToken v1) (relayerSelf rl)
                                               (vault intent) sender relayerFee)
                                        (\<lambda>tk2. bindE (checked_sub baseReceived relayerFee)
                                           (\<lambda>net. Inr (tk2, net)))
                                 else Inr (tk1, baseReceived))
                                (\<lambda>(tk3, baseOut).
                                  Inr (baseOut, rl1, v1, tk3,
                                       evs @ [MetaTxExecuted signer (vault intent)
                                                (quoteAmount intent) baseOut relayerFee]))))))"

subsection \<open>The parts of a cycle\<close>

text \<open>
  Names for the parts of \<open>executeCycle\<close>, to state its properties: the amount swapped
  after the soft bound to the vault's quote balance, the call the vault makes to the
  router, and what the vault does with the router's answer (the rest of the function
  body, from \<^verbatim>\<open>baseOut = amounts[amounts.length - 1]\<close> on).
\<close>

definition cycleQuoteIn :: "MicroDcaVault \<Rightarrow> tokens \<Rightarrow> nat \<Rightarrow> nat" where
  "cycleQuoteIn v tk q =
     (let avail = balanceOf tk (quoteToken v) (self v)
      in if q > avail then avail else q)"

definition cycleSwap ::
  "router_fn \<Rightarrow> nat \<Rightarrow> MicroDcaVault \<Rightarrow> tokens \<Rightarrow> nat \<Rightarrow> nat \<Rightarrow> error + (nat list \<times> tokens)" where
  "cycleSwap R now v tk q m =
     R (approve (approve tk (quoteToken v) (self v) (router v) 0)
          (quoteToken v) (self v) (router v) (cycleQuoteIn v tk q))
       now (self v) (cycleQuoteIn v tk q) m [quoteToken v, baseToken v]
       (self v) (now + 300)"

definition settleCycle ::
  "nat \<Rightarrow> MicroDcaVault \<Rightarrow> nat \<Rightarrow> nat \<Rightarrow> nat list \<Rightarrow> tokens
     \<Rightarrow> error + (nat \<times> MicroDcaVault \<times> tokens \<times> event list)" where
  "settleCycle now v quoteIn m amounts tk3 =
     (if amounts = [] then Inl Panic
      else
        let routerOut = last amounts in
          if \<not> routerOut \<ge> m then Inl (Require ''Slippage'')
          else
            bindE (checked_mul routerOut (feeBps v)) (\<lambda>p.
              let fee = p div 10000 in
                bindE
                  (if fee > 0
                   then bindE (transfer tk3 (baseToken v) (self v) (owner v) fee)
                          (\<lambda>tk4. bindE (checked_sub routerOut fee)
                             (\<lambda>net. Inr (tk4, net)))
                   else Inr (tk3, routerOut))
                  (\<lambda>(tk5, baseOut).
                    bindE (checked_add (totalFilledQuote v) quoteIn) (\<lambda>tq.
                    bindE (checked_add (totalFilledBase v) baseOut) (\<lambda>tb.
                      Inr (baseOut,
                           v\<lparr>lastExec := now, totalFilledQuote := tq,
                              totalFilledBase := tb\<rparr>,
                           tk5,
                           [Fill now quoteIn baseOut]))))))"

definition cycleFee :: "MicroDcaVault \<Rightarrow> nat \<Rightarrow> nat" where
  "cycleFee v routerOut = routerOut * feeBps v div 10000"

text \<open>
  The success branch of the \<^verbatim>\<open>try\<close> in \<open>executeMetaCycle\<close>: \<open>rl\<close> is the relayer's
  storage at the call, \<open>rl1\<close> the storage with the nonce incremented.
\<close>

definition payRelayer ::
  "address \<Rightarrow> Relayer \<Rightarrow> Relayer \<Rightarrow> address \<Rightarrow> ExecuteCycle \<Rightarrow> nat \<Rightarrow> MicroDcaVault \<Rightarrow> tokens
     \<Rightarrow> event list \<Rightarrow> error + (nat \<times> Relayer \<times> MicroDcaVault \<times> tokens \<times> event list)" where
  "payRelayer sender rl rl1 signer intent baseReceived v1 tk1 evs =
     bindE (checked_mul baseReceived (relayerFeeBps rl)) (\<lambda>p.
       let relayerFee = p div 10000 in
         bindE
           (if relayerFee > 0
            then bindE (transferFrom tk1 (baseToken v1) (relayerSelf rl)
                          (vault intent) sender relayerFee)
                   (\<lambda>tk2. bindE (checked_sub baseReceived relayerFee)
                      (\<lambda>net. Inr (tk2, net)))
            else Inr (tk1, baseReceived))
           (\<lambda>(tk3, baseOut).
             Inr (baseOut, rl1, v1, tk3,
                  evs @ [MetaTxExecuted signer (vault intent)
                           (quoteAmount intent) baseOut relayerFee])))"

subsection \<open>A concrete deployment\<close>

text \<open>
  The setting of the repository's test, with small numbers: the router at address 100
  is \<^verbatim>\<open>MockRouter\<close> at its default 1:1 rate without slippage, the base token is at 201,
  the quote token at 202 (with the test's symbols \<^verbatim>\<open>BASE\<close> and \<^verbatim>\<open>QUOTE\<close>), the
  factory's caller and vault owner is 11, and the vault is
  deployed at 300 at time 1000 with interval 60, slippage 50 bps, cap 100000 and fee
  10 bps. In \<open>demoTokens\<close> the vault holds 1000000 quote tokens and the router 10000000
  base tokens. The relayer is deployed at 400 with a fee of 25 bps; a signature is
  stood for by the address that signed. \<open>idleRouter\<close> is a router that reports the
  requested minimum as its output and moves no token.
\<close>

definition noTokens :: tokens where
  "noTokens = \<lparr> balanceOf = (\<lambda>_ _. 0), allowance = (\<lambda>_ _ _. 0) \<rparr>"

definition demoTokens :: tokens where
  "demoTokens = setBalance (setBalance noTokens 202 300 1000000) 201 100 10000000"

definition demoRouter :: router_fn where
  "demoRouter = mockSwap 100 (10 ^ 18) 0"

definition demoSymbols :: "address \<Rightarrow> string option" where
  "demoSymbols t =
     (if t = 201 then Some ''BASE'' else if t = 202 then Some ''QUOTE'' else None)"

definition idleRouter :: router_fn where
  "idleRouter tk now sender amountIn amountOutMin path to expiry =
     Inr ([amountIn, amountOutMin], tk)"

definition demoFactory :: VaultFactory where
  "demoFactory = \<lparr> factoryRouter = 100, allVaults = [], isVault = (\<lambda>_. False) \<rparr>"

definition demoVault :: MicroDcaVault where
  "demoVault = \<lparr> self = 300, router = 100, baseToken = 201, quoteToken = 202, owner = 11,
                 intervalSeconds = 60, maxSlippageBps = 50, perCycleQuoteCap = 100000,
                 feeBps = 10, keeper = 0, paused = False, lastExec = 1000,
                 totalFilledQuote = 0, totalFilledBase = 0, entered = False,
                 totalSupply = 0, shares = (\<lambda>_. 0),
                 shareName = ''MicroDCA-BASE'', shareSymbol = ''vBASE'' \<rparr>"

definition demoRelayer :: Relayer where
  "demoRelayer = \<lparr> relayerSelf = 400, relayerOwner = 11, relayerFeeBps = 25,
                   nonces = (\<lambda>_. 0) \<rparr>"

definition demoRecover :: "ExecuteCycle \<Rightarrow> address \<Rightarrow> address option" where
  "demoRecover intent signature = (if signature = 0 then None else Some signature)"

definition demoIntent :: ExecuteCycle where
  "demoIntent = \<lparr> vault = 300, quoteAmount = 50000, minOut = 50000, beneficiary = 19,
                  deadline = 2000, nonce = 0 \<rparr>"

text \<open>The vault at address 300, here with a protocol fee of zero.\<close>

definition demoVaults :: "address \<Rightarrow> MicroDcaVault option" where
  "demoVaults = Map.empty(300 \<mapsto> demoVault\<lparr>feeBps := 0\<rparr>)"

text \<open>
  Two ledgers for the share accounting, with depositor 12. In \<open>donatedTokens\<close> the
  vault, which has issued no shares, holds 5 quote tokens that were transferred to it
  directly; the depositor holds 3 and has approved the vault for them. \<open>pricedVault\<close>
  has 10 shares outstanding and, in \<open>pricedTokens\<close>, 15 quote tokens; the depositor
  holds 4 and has approved the vault for them.
\<close>

definition donatedTokens :: tokens where
  "donatedTokens =
     setAllowance (setBalance (setBalance noTokens 202 300 5) 202 12 3) 202 12 300 3"

definition pricedVault :: MicroDcaVault where
  "pricedVault = demoVault\<lparr>totalSupply := 10, shares := (\<lambda>_. 0)(13 := 10)\<rparr>"

definition pricedTokens :: tokens where
  "pricedTokens =
     setAllowance (setBalance (setBalance noTokens 202 300 15) 202 12 4) 202 12 300 4"

text \<open>
  A third ledger: \<open>driftVault\<close> has 2 shares outstanding and holds 200 quote tokens;
  depositor 12 holds 100 and depositor 14 holds 199, each approved to the vault.
  \<open>drift1\<close> is the outcome of the deposit of 100 by 12, \<open>drift2\<close> that of the deposit
  of 199 by 14 which follows it.
\<close>

definition driftVault :: MicroDcaVault where
  "driftVault = demoVault\<lparr>totalSupply := 2, shares := (\<lambda>_. 0)(13 := 2)\<rparr>"

definition driftTokens :: tokens where
  "driftTokens =
     setAllowance (setBalance
       (setAllowance (setBalance (setBalance noTokens 202 300 200) 202 12 100) 202 12 300 100)
       202 14 199) 202 14 300 199"

definition drift1 :: "nat \<times> MicroDcaVault \<times> tokens" where
  "drift1 = projr (deposit 12 driftVault driftTokens 100 12)"

definition drift2 :: "nat \<times> MicroDcaVault \<times> tokens" where
  "drift2 = projr (deposit 14 (fst (snd drift1)) (snd (snd drift1)) 199 14)"

section \<open>Properties\<close>

subsection \<open>Auxiliary facts\<close>

lemma bindE_Inr_iff: "bindE x f = Inr y \<longleftrightarrow> (\<exists>z. x = Inr z \<and> f z = Inr y)"
  by (cases x) auto

lemma checked_add_Inr_iff: "checked_add a b = Inr c \<longleftrightarrow> a + b \<le> MAX_UINT256 \<and> c = a + b"
  by (auto simp: checked_add_def)

lemma checked_sub_Inr_iff: "checked_sub a b = Inr c \<longleftrightarrow> b \<le> a \<and> c = a - b"
  by (auto simp: checked_sub_def)

lemma checked_mul_Inr_iff: "checked_mul a b = Inr c \<longleftrightarrow> a * b \<le> MAX_UINT256 \<and> c = a * b"
  by (auto simp: checked_mul_def)

lemma balanceOf_setBalance:
  "balanceOf (setBalance tk t a n) t' a' = (if t' = t \<and> a' = a then n else balanceOf tk t' a')"
  by (simp add: setBalance_def)

lemma balanceOf_setAllowance: "balanceOf (setAllowance tk t a s n) = balanceOf tk"
  by (simp add: setAllowance_def)

lemma transfer_Inr_iff:
  "transfer tk t s to n = Inr tk' \<longleftrightarrow>
     n \<le> balanceOf tk t s \<and>
     (if to = s then balanceOf tk t s \<le> MAX_UINT256 else balanceOf tk t to + n \<le> MAX_UINT256) \<and>
     tk' = setBalance (setBalance tk t s (balanceOf tk t s - n)) t to
             ((if to = s then balanceOf tk t s - n else balanceOf tk t to) + n)"
  by (auto simp: transfer_def Let_def bindE_Inr_iff checked_add_Inr_iff checked_sub_Inr_iff
        balanceOf_setBalance)

text \<open>The checks of \<open>executeCycle\<close> in the order the code makes them.\<close>

lemma executeCycle_gates:
  "executeCycle R now sender v tk q m b =
     (if paused v then Inl Paused
      else if entered v then Inl ReentrancyGuardReentrantCall
      else if keeper v \<noteq> 0 \<and> sender \<noteq> keeper v then Inl NotKeeper
      else if \<not> lastExec v + intervalSeconds v \<le> MAX_UINT256 then Inl Panic
      else if now < lastExec v + intervalSeconds v then Inl IntervalNotElapsed
      else if q > perCycleQuoteCap v then Inl CapExceeded
      else if cycleQuoteIn v tk q = 0 then Inl (Require ''NoQuote'')
      else if \<not> now + 300 \<le> MAX_UINT256 then Inl Panic
      else bindE (cycleSwap R now v tk q m)
             (\<lambda>(amounts, tk3). settleCycle now v (cycleQuoteIn v tk q) m amounts tk3))"
  unfolding executeCycle_def cycleSwap_def cycleQuoteIn_def settleCycle_def Let_def
  by (simp add: checked_add_def)

lemma settleCycle_Inr_iff:
  "settleCycle now v quoteIn m amounts tk3 = Inr (out, v', tk', evs) \<longleftrightarrow>
     amounts \<noteq> [] \<and> m \<le> last amounts \<and> last amounts * feeBps v \<le> MAX_UINT256 \<and>
     cycleFee v (last amounts) \<le> last amounts \<and>
     out = last amounts - cycleFee v (last amounts) \<and>
     (if 0 < cycleFee v (last amounts)
      then transfer tk3 (baseToken v) (self v) (owner v) (cycleFee v (last amounts)) = Inr tk'
      else tk' = tk3) \<and>
     totalFilledQuote v + quoteIn \<le> MAX_UINT256 \<and>
     totalFilledBase v + out \<le> MAX_UINT256 \<and>
     v' = v\<lparr>lastExec := now, totalFilledQuote := totalFilledQuote v + quoteIn,
            totalFilledBase := totalFilledBase v + out\<rparr> \<and>
     evs = [Fill now quoteIn out]"
  unfolding settleCycle_def cycleFee_def Let_def
  by (auto simp: bindE_Inr_iff checked_add_Inr_iff checked_sub_Inr_iff checked_mul_Inr_iff
        split: if_splits)

text \<open>The checks of \<open>executeMetaCycle\<close> in the order the code makes them.\<close>

lemma executeMetaCycle_gates:
  "executeMetaCycle recover R now sender rl vaults tk intent sg =
     (if now > deadline intent then Inl MetaTxExpired
      else
        case recover intent sg of
          None \<Rightarrow> Inl ECDSAInvalidSignature
        | Some signer \<Rightarrow>
            if nonce intent \<noteq> nonces rl signer then Inl InvalidParams
            else if \<not> nonces rl signer + 1 \<le> MAX_UINT256 then Inl Panic
            else
              case vaults (vault intent) of
                None \<Rightarrow> Inl CallToNonContract
              | Some v \<Rightarrow>
                  bindE (executeCycle R now (relayerSelf rl) v tk (quoteAmount intent)
                           (minOut intent) (beneficiary intent))
                    (\<lambda>(baseReceived, v1, tk1, evs).
                      payRelayer sender rl
                        (rl\<lparr>nonces := (nonces rl)(signer := nonces rl signer + 1)\<rparr>)
                        signer intent baseReceived v1 tk1 evs))"
  unfolding executeMetaCycle_def payRelayer_def Let_def
  by (simp add: checked_add_def split: option.splits)

lemma payRelayer_Inr:
  "payRelayer sender rl rl1 signer intent baseReceived v1 tk1 evs = Inr (out, rl', v', tk', evs')
     \<Longrightarrow> rl' = rl1"
  unfolding payRelayer_def Let_def
  by (auto simp: bindE_Inr_iff split: if_splits)

lemmas demo_defs =
  mockSwap_def demoTokens_def noTokens_def demoFactory_def demoVault_def demoRouter_def
  demoRelayer_def demoRecover_def demoIntent_def
  setBalance_def setAllowance_def transfer_def transferFrom_def approve_def
  checked_add_def checked_sub_def checked_mul_def MAX_UINT256_def
  cycleSwap_def cycleQuoteIn_def settleCycle_def Let_def

subsection \<open>The keeper given to the factory\<close>

text \<open>
  C1. The claim: after a successful \<^verbatim>\<open>createVault(..., keeper)\<close> the new vault's
  \<^verbatim>\<open>getConfig()\<close> reports the keeper the creator supplied, so that only this keeper may
  run a cycle. The code does not do this: \<open>createVault\<close> never hands \<open>kp\<close> to the vault's
  constructor, which has no keeper parameter and leaves \<open>keeper\<close> at \<^verbatim>\<open>address(0)\<close>.
  Evaluated at the test's call with keeper 17: the vault created is \<open>demoVault\<close>, its
  configuration reports keeper 0, and caller 19, who is not the keeper, runs a cycle.
\<close>

theorem createVault_keeper_dropped:
  "createVault demoSymbols 300 1000 11 demoFactory 201 202 60 50 100000 10 17 =
     Inr (300,
          demoFactory\<lparr>allVaults := [300], isVault := (isVault demoFactory)(300 := True)\<rparr>,
          demoVault, [VaultCreated 300 201 202 11])
   \<and> getConfig demoVault = (60, 50, 100000, 10, 0, False)
   \<and> \<not> isl (executeCycle demoRouter 1060 19 demoVault demoTokens 50000 50000 19)
   \<and> fst (projr (executeCycle demoRouter 1060 19 demoVault demoTokens 50000 50000 19)) = 49950"
  by (simp add: executeCycle_gates createVault_def MicroDcaVault_constructor_def getConfig_def
        demoSymbols_def demo_defs)

subsection \<open>Bounds on the basis-point fields\<close>

text \<open>
  C3. The claim: \<open>maxSlippageBps \<le> 10000\<close> and \<open>feeBps \<le> 10000\<close> hold in every reachable
  state of a vault, \<open>setConfig\<close> included. \<open>createVault\<close> checks both bounds, \<open>setConfig\<close>
  checks neither: the owner of the vault the factory created sets both fields to
  10001.
\<close>

theorem setConfig_breaks_bps_bounds:
  "maxSlippageBps demoVault \<le> 10000 \<and> feeBps demoVault \<le> 10000
   \<and> setConfig 11 demoVault 60 10001 100000 10001 0 False =
       Inr (demoVault\<lparr>maxSlippageBps := 10001, feeBps := 10001\<rparr>,
            [ConfigUpdated 60 10001 100000 10001 0 False])
   \<and> \<not> maxSlippageBps (demoVault\<lparr>maxSlippageBps := 10001, feeBps := 10001\<rparr>) \<le> 10000
   \<and> \<not> feeBps (demoVault\<lparr>maxSlippageBps := 10001, feeBps := 10001\<rparr>) \<le> 10000"
  by (simp add: setConfig_def demoVault_def)

subsection \<open>Order of the keeper check and the pause check\<close>

text \<open>
  C4, as claimed: with a keeper set and another caller, \<open>executeCycle\<close> fails with
  \<open>NotKeeper\<close> whatever the pause flag. It does not: the \<^verbatim>\<open>notPaused\<close> modifier runs
  before the function body, so a paused vault answers \<open>Paused\<close>.
\<close>

theorem executeCycle_paused_before_keeper:
  "keeper (demoVault\<lparr>keeper := 17, paused := True\<rparr>) \<noteq> 0
   \<and> 19 \<noteq> keeper (demoVault\<lparr>keeper := 17, paused := True\<rparr>)
   \<and> executeCycle demoRouter 1060 19 (demoVault\<lparr>keeper := 17, paused := True\<rparr>)
        demoTokens 50000 50000 19 = Inl Paused"
  by (simp add: executeCycle_def demoVault_def)

text \<open>
  C4, amended: with a keeper set and another caller, \<open>executeCycle\<close> fails for all
  arguments, with \<open>Paused\<close> when the vault is paused, with the guard's error when a
  cycle is in progress, and with \<open>NotKeeper\<close> otherwise.
\<close>

theorem executeCycle_not_keeper:
  assumes "keeper v \<noteq> 0" and "sender \<noteq> keeper v"
  shows "executeCycle R now sender v tk q m b =
           (if paused v then Inl Paused
            else if entered v then Inl ReentrancyGuardReentrantCall
            else Inl NotKeeper)"
  using assms by (simp add: executeCycle_def)

theorem executeCycle_not_keeper_witness:
  "keeper (demoVault\<lparr>keeper := 17\<rparr>) \<noteq> 0 \<and> 19 \<noteq> keeper (demoVault\<lparr>keeper := 17\<rparr>)
   \<and> executeCycle demoRouter 1060 19 (demoVault\<lparr>keeper := 17\<rparr>) demoTokens 50000 50000 19 =
       Inl NotKeeper"
proof -
  have k: "keeper (demoVault\<lparr>keeper := 17\<rparr>) \<noteq> 0"
    by simp
  have s: "19 \<noteq> keeper (demoVault\<lparr>keeper := 17\<rparr>)"
    by simp
  show ?thesis
    using k s executeCycle_not_keeper [OF k s, of demoRouter 1060 demoTokens 50000 50000 19]
    by (simp add: demoVault_def)
qed

subsection \<open>The interval gate\<close>

text \<open>
  C9, as claimed: in every vault state a call before \<open>lastExec + intervalSeconds\<close> fails
  with \<open>IntervalNotElapsed\<close>. It does not: the pause check comes first, so the paused
  vault answers \<open>Paused\<close> at time 1059, before 1000 + 60; and where
  \<open>lastExec + intervalSeconds\<close> leaves the range of \<^verbatim>\<open>uint256\<close> the checked addition
  panics before the comparison.
\<close>

theorem executeCycle_interval_counterexample:
  "\<not> entered (demoVault\<lparr>paused := True\<rparr>)
   \<and> keeper (demoVault\<lparr>paused := True\<rparr>) = 0
   \<and> 1059 < lastExec (demoVault\<lparr>paused := True\<rparr>) + intervalSeconds (demoVault\<lparr>paused := True\<rparr>)
   \<and> executeCycle demoRouter 1059 19 (demoVault\<lparr>paused := True\<rparr>) demoTokens 50000 50000 19
       = Inl Paused
   \<and> 1059 < lastExec (demoVault\<lparr>intervalSeconds := MAX_UINT256\<rparr>)
              + intervalSeconds (demoVault\<lparr>intervalSeconds := MAX_UINT256\<rparr>)
   \<and> executeCycle demoRouter 1059 19 (demoVault\<lparr>intervalSeconds := MAX_UINT256\<rparr>)
        demoTokens 50000 50000 19 = Inl Panic"
  by (simp add: executeCycle_gates demoVault_def MAX_UINT256_def)

text \<open>
  C9, amended: in a vault that is not paused and not inside a cycle, for an
  authorized caller, and with \<open>lastExec + intervalSeconds\<close> in the range of \<^verbatim>\<open>uint256\<close>:
  a call at any time before \<open>lastExec + intervalSeconds\<close> fails with
  \<open>IntervalNotElapsed\<close>; a call at that time or later, for a positive amount within
  the cap and the vault's quote balance, succeeds and sets \<open>lastExec\<close> to the time of
  the call whenever the router's swap returns an output of at least \<open>m\<close>, the fee
  rate is at most 10000, the fee can be paid out and no counter overflows.
\<close>

theorem executeCycle_interval_gate:
  assumes "\<not> paused v" and "\<not> entered v" and "keeper v = 0 \<or> sender = keeper v"
    and "lastExec v + intervalSeconds v \<le> MAX_UINT256"
  shows "(now < lastExec v + intervalSeconds v \<longrightarrow>
            executeCycle R now sender v tk q m b = Inl IntervalNotElapsed)
       \<and> (lastExec v + intervalSeconds v \<le> now
            \<and> q \<le> perCycleQuoteCap v \<and> 0 < q \<and> q \<le> balanceOf tk (quoteToken v) (self v)
            \<and> now + 300 \<le> MAX_UINT256
            \<and> cycleSwap R now v tk q m = Inr (amounts, tk3)
            \<and> amounts \<noteq> [] \<and> m \<le> last amounts
            \<and> feeBps v \<le> 10000 \<and> last amounts * feeBps v \<le> MAX_UINT256
            \<and> cycleFee v (last amounts) \<le> balanceOf tk3 (baseToken v) (self v)
            \<and> balanceOf tk3 (baseToken v) (owner v) + cycleFee v (last amounts) \<le> MAX_UINT256
            \<and> totalFilledQuote v + q \<le> MAX_UINT256
            \<and> totalFilledBase v + last amounts \<le> MAX_UINT256
          \<longrightarrow> (\<exists>tk'. executeCycle R now sender v tk q m b =
                 Inr (last amounts - cycleFee v (last amounts),
                      v\<lparr>lastExec := now, totalFilledQuote := totalFilledQuote v + q,
                         totalFilledBase :=
                           totalFilledBase v + (last amounts - cycleFee v (last amounts))\<rparr>,
                      tk',
                      [Fill now q (last amounts - cycleFee v (last amounts))])))"
proof (intro conjI impI)
  assume "now < lastExec v + intervalSeconds v"
  with assms show "executeCycle R now sender v tk q m b = Inl IntervalNotElapsed"
    by (auto simp: executeCycle_gates)
next
  assume h: "lastExec v + intervalSeconds v \<le> now
            \<and> q \<le> perCycleQuoteCap v \<and> 0 < q \<and> q \<le> balanceOf tk (quoteToken v) (self v)
            \<and> now + 300 \<le> MAX_UINT256
            \<and> cycleSwap R now v tk q m = Inr (amounts, tk3)
            \<and> amounts \<noteq> [] \<and> m \<le> last amounts
            \<and> feeBps v \<le> 10000 \<and> last amounts * feeBps v \<le> MAX_UINT256
            \<and> cycleFee v (last amounts) \<le> balanceOf tk3 (baseToken v) (self v)
            \<and> balanceOf tk3 (baseToken v) (owner v) + cycleFee v (last amounts) \<le> MAX_UINT256
            \<and> totalFilledQuote v + q \<le> MAX_UINT256
            \<and> totalFilledBase v + last amounts \<le> MAX_UINT256"
  have qin: "cycleQuoteIn v tk q = q"
    using h by (simp add: cycleQuoteIn_def)
  have "last amounts * feeBps v \<le> last amounts * 10000"
    using h by (intro mult_le_mono2) simp
  then have fee: "cycleFee v (last amounts) \<le> last amounts"
    by (simp add: cycleFee_def
          div_le_mono [of "last amounts * feeBps v" "last amounts * 10000" 10000, simplified])
  define fee where "fee = cycleFee v (last amounts)"
  define tk' where "tk' = (if 0 < fee
      then setBalance (setBalance tk3 (baseToken v) (self v) (balanceOf tk3 (baseToken v) (self v) - fee))
             (baseToken v) (owner v)
             ((if owner v = self v then balanceOf tk3 (baseToken v) (self v) - fee
               else balanceOf tk3 (baseToken v) (owner v)) + fee)
      else tk3)"
  have tr: "if 0 < fee then transfer tk3 (baseToken v) (self v) (owner v) fee = Inr tk' else tk' = tk3"
    using h by (auto simp: transfer_Inr_iff tk'_def fee_def)
  have "settleCycle now v q m amounts tk3 =
          Inr (last amounts - fee,
               v\<lparr>lastExec := now, totalFilledQuote := totalFilledQuote v + q,
                  totalFilledBase := totalFilledBase v + (last amounts - fee)\<rparr>,
               tk', [Fill now q (last amounts - fee)])"
    unfolding settleCycle_Inr_iff using h fee tr by (auto simp: fee_def)
  then have "executeCycle R now sender v tk q m b =
          Inr (last amounts - fee,
               v\<lparr>lastExec := now, totalFilledQuote := totalFilledQuote v + q,
                  totalFilledBase := totalFilledBase v + (last amounts - fee)\<rparr>,
               tk', [Fill now q (last amounts - fee)])"
    using assms h qin by (auto simp: executeCycle_gates)
  then show "\<exists>tk'. executeCycle R now sender v tk q m b =
                 Inr (last amounts - cycleFee v (last amounts),
                      v\<lparr>lastExec := now, totalFilledQuote := totalFilledQuote v + q,
                         totalFilledBase :=
                           totalFilledBase v + (last amounts - cycleFee v (last amounts))\<rparr>,
                      tk',
                      [Fill now q (last amounts - cycleFee v (last amounts))])"
    unfolding fee_def by blast
qed


theorem executeCycle_interval_gate_witness:
  "executeCycle demoRouter 1059 19 demoVault demoTokens 50000 50000 19 = Inl IntervalNotElapsed
   \<and> \<not> isl (executeCycle demoRouter 1060 19 demoVault demoTokens 50000 50000 19)"
proof -
  define X where "X = cycleSwap demoRouter 1060 demoVault demoTokens 50000 50000"
  have g1: "\<not> paused demoVault" and g2: "\<not> entered demoVault"
    and g3: "keeper demoVault = 0 \<or> 19 = keeper demoVault"
    and g4: "lastExec demoVault + intervalSeconds demoVault \<le> MAX_UINT256"
    by (simp_all add: demoVault_def MAX_UINT256_def)
  have X: "X = Inr ([50000, 50000], snd (projr X))"
    by (simp add: X_def demo_defs)
  have bal: "balanceOf (snd (projr X)) 201 300 = 50000" "balanceOf (snd (projr X)) 201 11 = 0"
    by (simp_all add: X_def demo_defs)
  have early: "(1059::nat) < lastExec demoVault + intervalSeconds demoVault"
    by (simp add: demoVault_def)
  have sw: "cycleSwap demoRouter 1060 demoVault demoTokens 50000 50000
                 = Inr ([50000, 50000], snd (projr X))"
    using X unfolding X_def .
  have num: "lastExec demoVault + intervalSeconds demoVault \<le> 1060"
    "50000 \<le> perCycleQuoteCap demoVault"
    "50000 \<le> balanceOf demoTokens (quoteToken demoVault) (self demoVault)"
    "(1060::nat) + 300 \<le> MAX_UINT256"
    "feeBps demoVault \<le> 10000" "last [50000, 50000] * feeBps demoVault \<le> MAX_UINT256"
    "cycleFee demoVault (last [50000, 50000])
       \<le> balanceOf (snd (projr X)) (baseToken demoVault) (self demoVault)"
    "balanceOf (snd (projr X)) (baseToken demoVault) (owner demoVault)
       + cycleFee demoVault (last [50000, 50000]) \<le> MAX_UINT256"
    "totalFilledQuote demoVault + 50000 \<le> MAX_UINT256"
    "totalFilledBase demoVault + last [50000, 50000] \<le> MAX_UINT256"
    using bal by (simp_all add: demoVault_def demoTokens_def noTokens_def
        setBalance_def cycleFee_def MAX_UINT256_def)
  show ?thesis
    using executeCycle_interval_gate [OF g1 g2 g3 g4,
        where now = 1059 and R = demoRouter and tk = demoTokens and q = 50000 and m = 50000
          and b = 19]
      executeCycle_interval_gate [OF g1 g2 g3 g4,
        where now = 1060 and R = demoRouter and tk = demoTokens and q = 50000 and m = 50000
          and b = 19 and amounts = "[50000, 50000]" and ?tk3.0 = "snd (projr X)"]
      early sw num
    by auto
qed


subsection \<open>Fee conservation\<close>

text \<open>
  C7, as claimed: after every successful \<open>executeCycle\<close> the vault's base balance has
  grown by exactly the returned amount. It has not where the owner is the vault
  itself, the fee being paid from the vault to the vault: with the test's router the
  cycle returns 49950 and the balance grows by the router's 50000. Nor where the
  router reports an output it does not deliver, which the vault never checks against
  its balance: with \<open>idleRouter\<close> the cycle returns 9 and the balance stays at 0.
\<close>

theorem executeCycle_balance_counterexample:
  "\<not> isl (executeCycle demoRouter 1060 19 (demoVault\<lparr>owner := 300\<rparr>) demoTokens 50000 50000 19)
   \<and> fst (projr (cycleSwap demoRouter 1060 (demoVault\<lparr>owner := 300\<rparr>) demoTokens 50000 50000))
       = [50000, 50000]
   \<and> fst (projr (executeCycle demoRouter 1060 19 (demoVault\<lparr>owner := 300\<rparr>) demoTokens
        50000 50000 19)) = 49950
   \<and> balanceOf demoTokens 201 300 = 0
   \<and> balanceOf (fst (snd (snd (projr
        (executeCycle demoRouter 1060 19 (demoVault\<lparr>owner := 300\<rparr>) demoTokens
           50000 50000 19))))) 201 300 = 50000
   \<and> \<not> isl (executeCycle idleRouter 1060 19 demoVault demoTokens 50000 9 19)
   \<and> fst (projr (cycleSwap idleRouter 1060 demoVault demoTokens 50000 9)) = [50000, 9]
   \<and> fst (projr (executeCycle idleRouter 1060 19 demoVault demoTokens 50000 9 19)) = 9
   \<and> balanceOf (fst (snd (snd (projr
        (executeCycle idleRouter 1060 19 demoVault demoTokens 50000 9 19))))) 201 300 = 0"
  by (simp add: executeCycle_gates idleRouter_def demo_defs)

text \<open>
  C7, amended: whenever \<open>executeCycle\<close> succeeds and the router's answer to the
  vault's swap call was \<open>amounts\<close>, with \<open>routerBaseOut = last amounts\<close>: the amount
  returned and recorded in the \<open>Fill\<close> event (and added to \<open>totalFilledBase\<close>) is
  \<open>routerBaseOut - routerBaseOut * feeBps div 10000\<close>; a positive fee
  \<open>routerBaseOut * feeBps div 10000\<close> is transferred from the vault to the owner,
  and with an owner other than the vault it leaves the vault's base balance and
  reaches the owner's; and when, besides, the router credited the vault with the
  output it reported, the vault's base balance has grown by exactly the returned
  amount.
\<close>

theorem executeCycle_fee_conservation:
  assumes "executeCycle R now sender v tk q m b = Inr (out, v', tk', evs)"
    and "cycleSwap R now v tk q m = Inr (amounts, tk3)"
  shows "amounts \<noteq> []
       \<and> out = last amounts - last amounts * feeBps v div 10000
       \<and> last amounts * feeBps v div 10000 \<le> last amounts
       \<and> evs = [Fill now (cycleQuoteIn v tk q) out]
       \<and> totalFilledBase v' = totalFilledBase v + out
       \<and> (if 0 < last amounts * feeBps v div 10000
          then transfer tk3 (baseToken v) (self v) (owner v) (last amounts * feeBps v div 10000)
                 = Inr tk'
          else tk' = tk3)
       \<and> (owner v \<noteq> self v \<longrightarrow>
            balanceOf tk' (baseToken v) (owner v) =
              balanceOf tk3 (baseToken v) (owner v) + last amounts * feeBps v div 10000
            \<and> balanceOf tk' (baseToken v) (self v) + last amounts * feeBps v div 10000 =
              balanceOf tk3 (baseToken v) (self v))
       \<and> (owner v \<noteq> self v
            \<and> balanceOf tk3 (baseToken v) (self v) = balanceOf tk (baseToken v) (self v) + last amounts
          \<longrightarrow> balanceOf tk' (baseToken v) (self v) = balanceOf tk (baseToken v) (self v) + out)"
proof -
  from assms have "settleCycle now v (cycleQuoteIn v tk q) m amounts tk3 = Inr (out, v', tk', evs)"
    by (simp add: executeCycle_gates split: if_splits)
  then have s: "amounts \<noteq> []" "cycleFee v (last amounts) \<le> last amounts"
    "out = last amounts - cycleFee v (last amounts)"
    "if 0 < cycleFee v (last amounts)
     then transfer tk3 (baseToken v) (self v) (owner v) (cycleFee v (last amounts)) = Inr tk'
     else tk' = tk3"
    "v' = v\<lparr>lastExec := now,
            totalFilledQuote := totalFilledQuote v + cycleQuoteIn v tk q,
            totalFilledBase := totalFilledBase v + out\<rparr>"
    "evs = [Fill now (cycleQuoteIn v tk q) out]"
    unfolding settleCycle_Inr_iff by simp_all
  have t: "owner v \<noteq> self v \<Longrightarrow>
      balanceOf tk' (baseToken v) (owner v) =
        balanceOf tk3 (baseToken v) (owner v) + cycleFee v (last amounts)
      \<and> balanceOf tk' (baseToken v) (self v) + cycleFee v (last amounts) =
        balanceOf tk3 (baseToken v) (self v)"
    using s(4) by (cases "0 < cycleFee v (last amounts)")
      (auto simp: transfer_Inr_iff balanceOf_setBalance)
  show ?thesis
    using s t by (auto simp: cycleFee_def)
qed

theorem executeCycle_fee_conservation_witness:
  "fst (projr (executeCycle demoRouter 1060 19 demoVault demoTokens 50000 50000 19)) = 49950
   \<and> balanceOf (fst (snd (snd (projr
        (executeCycle demoRouter 1060 19 demoVault demoTokens 50000 50000 19))))) 201 300 =
      balanceOf demoTokens 201 300 + 49950
   \<and> balanceOf (fst (snd (snd (projr
        (executeCycle demoRouter 1060 19 demoVault demoTokens 50000 50000 19))))) 201 11 = 50"
proof -
  define X where "X = cycleSwap demoRouter 1060 demoVault demoTokens 50000 50000"
  define Y where "Y = executeCycle demoRouter 1060 19 demoVault demoTokens 50000 50000 19"
  have X: "X = Inr ([50000, 50000], snd (projr X))"
    by (simp add: X_def demo_defs)
  have bal: "balanceOf (snd (projr X)) 201 300 = 50000" "balanceOf (snd (projr X)) 201 11 = 0"
    "balanceOf demoTokens 201 300 = 0"
    by (simp_all add: X_def demo_defs)
  have "\<not> isl Y"
    by (simp add: Y_def executeCycle_gates demo_defs)
  then have Y: "Y = Inr (fst (projr Y), fst (snd (projr Y)), fst (snd (snd (projr Y))),
                         snd (snd (snd (projr Y))))"
    by (cases Y) auto
  have cfg: "owner demoVault \<noteq> self demoVault" "baseToken demoVault = 201"
    "owner demoVault = 11" "self demoVault = 300" "feeBps demoVault = 10"
    by (simp_all add: demoVault_def)
  show ?thesis
    using executeCycle_fee_conservation [OF Y [unfolded Y_def] X [unfolded X_def]] bal cfg
    by (simp add: X_def Y_def)
qed


subsection \<open>The stored slippage bound\<close>

lemma settleCycle_maxSlippageBps:
  "settleCycle now (v\<lparr>maxSlippageBps := s\<rparr>) qi m amounts tk3 =
     map_sum id (\<lambda>(out, v', tk', evs). (out, v'\<lparr>maxSlippageBps := s\<rparr>, tk', evs))
       (settleCycle now v qi m amounts tk3)"
  unfolding settleCycle_def Let_def
  by (cases "transfer tk3 (baseToken v) (self v) (owner v) (last amounts * feeBps v div 10000)")
    (simp_all add: checked_add_def checked_mul_def checked_sub_def)

lemma cycleSwap_maxSlippageBps:
  "cycleSwap R now (v\<lparr>maxSlippageBps := s\<rparr>) tk q m = cycleSwap R now v tk q m"
  "cycleQuoteIn (v\<lparr>maxSlippageBps := s\<rparr>) tk q = cycleQuoteIn v tk q"
  by (simp_all add: cycleSwap_def cycleQuoteIn_def)

lemma executeCycle_maxSlippageBps:
  "executeCycle R now sender (v\<lparr>maxSlippageBps := s\<rparr>) tk q m b =
     map_sum id (\<lambda>(out, v', tk', evs). (out, v'\<lparr>maxSlippageBps := s\<rparr>, tk', evs))
       (executeCycle R now sender v tk q m b)"
proof (cases "cycleSwap R now v tk q m")
  case (Inl e)
  then show ?thesis
    by (simp add: executeCycle_gates cycleSwap_maxSlippageBps)
next
  case (Inr r)
  then show ?thesis
    by (cases r) (simp add: executeCycle_gates cycleSwap_maxSlippageBps settleCycle_maxSlippageBps)
qed

lemma deposit_maxSlippageBps:
  "deposit sender (v\<lparr>maxSlippageBps := s\<rparr>) tk a r =
       map_sum id (\<lambda>(minted, v', tk'). (minted, v'\<lparr>maxSlippageBps := s\<rparr>, tk'))
         (deposit sender v tk a r)"
  unfolding deposit_def totalAssets_def
  by (cases "transferFrom tk (quoteToken v) (self v) sender (self v) a")
    (simp_all add: checked_add_def checked_mul_def)

lemma redeem_maxSlippageBps:
  "redeem sender (v\<lparr>maxSlippageBps := s\<rparr>) tk a r own =
       map_sum id (\<lambda>(assets, v', tk'). (assets, v'\<lparr>maxSlippageBps := s\<rparr>, tk'))
         (redeem sender v tk a r own)"
  unfolding redeem_def totalAssets_def
  by (cases "transfer tk (quoteToken v) (self v) r
       (a * (balanceOf tk (quoteToken v) (self v) + balanceOf tk (baseToken v) (self v))
          div totalSupply v)")
    (simp_all add: checked_add_def checked_mul_def checked_sub_def)

text \<open>
  C10. \<open>maxSlippageBps\<close> is stored and reported and nothing else: changing the field
  in the state changes no result, no error and no effect of \<open>executeCycle\<close>,
  \<open>setConfig\<close>, \<open>nextExecTime\<close>, \<open>totalAssets\<close>, \<open>deposit\<close> or \<open>redeem\<close>; the
  state after the call differs in that field alone (after \<open>setConfig\<close>, which
  overwrites it, not at all). \<open>getConfig\<close> reports it. The only slippage check of a
  cycle compares the router's output with the caller's \<open>m\<close>.
\<close>

theorem maxSlippageBps_unused:
  "executeCycle R now sender (v\<lparr>maxSlippageBps := s\<rparr>) tk q m b =
     map_sum id (\<lambda>(out, v', tk', evs). (out, v'\<lparr>maxSlippageBps := s\<rparr>, tk', evs))
       (executeCycle R now sender v tk q m b)
   \<and> setConfig sender (v\<lparr>maxSlippageBps := s\<rparr>) i s' c f k p = setConfig sender v i s' c f k p
   \<and> nextExecTime (v\<lparr>maxSlippageBps := s\<rparr>) = nextExecTime v
   \<and> totalAssets (v\<lparr>maxSlippageBps := s\<rparr>) tk = totalAssets v tk
   \<and> deposit sender (v\<lparr>maxSlippageBps := s\<rparr>) tk a r =
       map_sum id (\<lambda>(minted, v', tk'). (minted, v'\<lparr>maxSlippageBps := s\<rparr>, tk'))
         (deposit sender v tk a r)
   \<and> redeem sender (v\<lparr>maxSlippageBps := s\<rparr>) tk a r own =
       map_sum id (\<lambda>(assets, v', tk'). (assets, v'\<lparr>maxSlippageBps := s\<rparr>, tk'))
         (redeem sender v tk a r own)
   \<and> getConfig (v\<lparr>maxSlippageBps := s\<rparr>) =
       (intervalSeconds v, s, perCycleQuoteCap v, feeBps v, keeper v, paused v)"
  by (simp add: executeCycle_maxSlippageBps deposit_maxSlippageBps redeem_maxSlippageBps
        setConfig_def nextExecTime_def totalAssets_def getConfig_def)


subsection \<open>The relayer's fee\<close>

text \<open>
  C2. The claim: whenever the inner \<open>executeCycle\<close> succeeds and the deadline and nonce
  checks pass, \<open>executeMetaCycle\<close> succeeds, moving the relayer's fee from the vault to
  the caller. The relayer pulls the fee with \<^verbatim>\<open>safeTransferFrom(vault, msg.sender, fee)\<close>,
  which spends an allowance of the vault to the relayer; the vault approves nobody for
  its base token, so the pull underflows the allowance and the whole call reverts.
  Evaluated for the vault at 300 with protocol fee 0: the cycle called by the relayer
  succeeds with router output 50000, the relayer fee is 25 bps, the deadline 2000 has
  not passed at 1060, the nonce matches, and the call reverts.
\<close>

theorem relayer_fee_pull_reverts:
  "demoVaults 300 = Some (demoVault\<lparr>feeBps := 0\<rparr>)
   \<and> \<not> isl (executeCycle demoRouter 1060 400 (demoVault\<lparr>feeBps := 0\<rparr>) demoTokens 50000 50000 19)
   \<and> fst (projr (executeCycle demoRouter 1060 400 (demoVault\<lparr>feeBps := 0\<rparr>) demoTokens
        50000 50000 19)) = 50000
   \<and> 0 < relayerFeeBps demoRelayer
   \<and> \<not> 1060 > deadline demoIntent
   \<and> demoRecover demoIntent 18 = Some 18
   \<and> nonce demoIntent = nonces demoRelayer 18
   \<and> executeMetaCycle demoRecover demoRouter 1060 15 demoRelayer demoVaults demoTokens
        demoIntent 18 = Inl Panic"
  by (simp add: executeMetaCycle_gates executeCycle_gates payRelayer_def demoVaults_def demo_defs)



subsection \<open>Nonces\<close>

text \<open>
  C8, as claimed: \<open>executeMetaCycle\<close> fails with \<open>InvalidParams\<close> whenever the intent's
  nonce is not the signer's current one. It does not when the deadline has passed:
  the deadline is checked first and the call fails with \<open>MetaTxExpired\<close>.
\<close>

theorem executeMetaCycle_expired_counterexample:
  "demoRecover demoIntent 18 = Some 18
   \<and> nonce (demoIntent\<lparr>nonce := 1\<rparr>) \<noteq> nonces demoRelayer 18
   \<and> executeMetaCycle demoRecover demoRouter 2001 15 demoRelayer demoVaults demoTokens
        (demoIntent\<lparr>nonce := 1\<rparr>) 18 = Inl MetaTxExpired"
  by (simp add: executeMetaCycle_gates demoRecover_def demoIntent_def demoRelayer_def)


text \<open>
  C8, amended: a successful \<open>executeMetaCycle\<close> was called with the signer's current
  nonce and changes the relayer's storage in one place, the signer's nonce, which
  grows by exactly 1; after it, the same signed intent fails at any time, from any
  caller, whatever the vaults and the ledger. A call whose nonce is not the signer's
  current one always fails, and so does the replay: with \<open>InvalidParams\<close> while the
  deadline has not passed, and with \<open>MetaTxExpired\<close> after it.
\<close>

theorem executeMetaCycle_nonce:
  "(executeMetaCycle recover R now sender rl vaults tk intent sg = Inr (out, rl', v', tk', evs)
      \<longrightarrow> (\<exists>signer. recover intent sg = Some signer \<and> nonce intent = nonces rl signer
              \<and> rl' = rl\<lparr>nonces := (nonces rl)(signer := nonces rl signer + 1)\<rparr>)
          \<and> executeMetaCycle recover R2 now2 sender2 rl' vaults2 tk2 intent sg =
              (if deadline intent < now2 then Inl MetaTxExpired else Inl InvalidParams))
   \<and> (recover intent sg = Some signer \<and> nonce intent \<noteq> nonces rl signer
      \<longrightarrow> executeMetaCycle recover R now sender rl vaults tk intent sg =
            (if deadline intent < now then Inl MetaTxExpired else Inl InvalidParams))"
proof (intro conjI impI)
  assume ok: "executeMetaCycle recover R now sender rl vaults tk intent sg = Inr (out, rl', v', tk', evs)"
  then obtain signer where s: "recover intent sg = Some signer"
    "nonce intent = nonces rl signer"
    by (auto simp: executeMetaCycle_gates split: if_splits option.splits)
  from ok s have "rl' = rl\<lparr>nonces := (nonces rl)(signer := nonces rl signer + 1)\<rparr>"
    by (auto simp: executeMetaCycle_gates bindE_Inr_iff split: if_splits option.splits
          dest: payRelayer_Inr)
  with s show "\<exists>signer. recover intent sg = Some signer \<and> nonce intent = nonces rl signer
              \<and> rl' = rl\<lparr>nonces := (nonces rl)(signer := nonces rl signer + 1)\<rparr>"
    by blast
  from s \<open>rl' = _\<close> show "executeMetaCycle recover R2 now2 sender2 rl' vaults2 tk2 intent sg =
      (if deadline intent < now2 then Inl MetaTxExpired else Inl InvalidParams)"
    by (simp add: executeMetaCycle_gates)
next
  assume "recover intent sg = Some signer \<and> nonce intent \<noteq> nonces rl signer"
  then show "executeMetaCycle recover R now sender rl vaults tk intent sg =
      (if deadline intent < now then Inl MetaTxExpired else Inl InvalidParams)"
    by (simp add: executeMetaCycle_gates)
qed

theorem executeMetaCycle_nonce_witness:
  "\<not> isl (executeMetaCycle demoRecover demoRouter 1060 15 (demoRelayer\<lparr>relayerFeeBps := 0\<rparr>)
            demoVaults demoTokens demoIntent 18)
   \<and> nonces (fst (snd (projr
        (executeMetaCycle demoRecover demoRouter 1060 15 (demoRelayer\<lparr>relayerFeeBps := 0\<rparr>)
           demoVaults demoTokens demoIntent 18)))) 18 = 1
   \<and> executeMetaCycle demoRecover demoRouter 1061 15
        (fst (snd (projr
          (executeMetaCycle demoRecover demoRouter 1060 15 (demoRelayer\<lparr>relayerFeeBps := 0\<rparr>)
             demoVaults demoTokens demoIntent 18))))
        demoVaults demoTokens demoIntent 18 = Inl InvalidParams
   \<and> executeMetaCycle demoRecover demoRouter 1060 15 demoRelayer demoVaults demoTokens
        (demoIntent\<lparr>nonce := 1\<rparr>) 18 = Inl InvalidParams
   \<and> executeMetaCycle demoRecover demoRouter 2500 15 demoRelayer demoVaults demoTokens
        (demoIntent\<lparr>nonce := 1\<rparr>) 18 = Inl MetaTxExpired"
proof -
  define Y where "Y = executeMetaCycle demoRecover demoRouter 1060 15
    (demoRelayer\<lparr>relayerFeeBps := 0\<rparr>) demoVaults demoTokens demoIntent 18"
  have n: "\<not> isl Y"
    by (simp add: Y_def executeMetaCycle_gates executeCycle_gates payRelayer_def demoVaults_def
          demo_defs)
  then have Y: "Y = Inr (fst (projr Y), fst (snd (projr Y)), fst (snd (snd (projr Y))),
      fst (snd (snd (snd (projr Y)))), snd (snd (snd (snd (projr Y)))))"
    by (cases Y) auto
  have r: "demoRecover demoIntent 18 = Some 18" "demoRecover (demoIntent\<lparr>nonce := 1\<rparr>) 18 = Some 18"
    "nonce (demoIntent\<lparr>nonce := 1\<rparr>) \<noteq> nonces demoRelayer 18"
    "\<not> deadline (demoIntent\<lparr>nonce := 1\<rparr>) < (1060::nat)"
    "deadline (demoIntent\<lparr>nonce := 1\<rparr>) < (2500::nat)"
    "\<not> deadline demoIntent < (1061::nat)"
    "nonces (demoRelayer\<lparr>relayerFeeBps := 0\<rparr>) 18 = 0"
    by (simp_all add: demoRecover_def demoIntent_def demoRelayer_def)
  note T = executeMetaCycle_nonce [where recover = demoRecover and R = demoRouter
      and now = 1060 and sender = 15 and rl = "demoRelayer\<lparr>relayerFeeBps := 0\<rparr>"
      and vaults = demoVaults and tk = demoTokens and intent = demoIntent and sg = 18
      and ?R2.0 = demoRouter and ?now2.0 = 1061 and ?sender2.0 = 15
      and ?vaults2.0 = demoVaults and ?tk2.0 = demoTokens,
      THEN conjunct1, rule_format, OF Y [unfolded Y_def], folded Y_def]
  from T r have rl: "fst (snd (projr Y)) =
      demoRelayer\<lparr>relayerFeeBps := 0,
        nonces := (nonces (demoRelayer\<lparr>relayerFeeBps := 0\<rparr>))
                    (18 := nonces (demoRelayer\<lparr>relayerFeeBps := 0\<rparr>) 18 + 1)\<rparr>"
    by auto
  have one: "nonces (fst (snd (projr Y))) 18 = 1"
    unfolding rl using r by simp
  from T r(6) have replay: "executeMetaCycle demoRecover demoRouter 1061 15
      (fst (snd (projr Y))) demoVaults demoTokens demoIntent 18 = Inl InvalidParams"
    by simp
  have inv: "executeMetaCycle demoRecover demoRouter 1060 15 demoRelayer demoVaults demoTokens
        (demoIntent\<lparr>nonce := 1\<rparr>) 18 = Inl InvalidParams"
    using executeMetaCycle_nonce [where recover = demoRecover and R = demoRouter and now = 1060
        and sender = 15 and rl = demoRelayer and vaults = demoVaults
        and tk = demoTokens and intent = "demoIntent\<lparr>nonce := 1\<rparr>" and sg = 18
        and signer = 18, THEN conjunct2] r(2,3,4)
    by simp
  have late: "executeMetaCycle demoRecover demoRouter 2500 15 demoRelayer demoVaults demoTokens
        (demoIntent\<lparr>nonce := 1\<rparr>) 18 = Inl MetaTxExpired"
    using executeMetaCycle_nonce [where recover = demoRecover and R = demoRouter and now = 2500
        and sender = 15 and rl = demoRelayer and vaults = demoVaults
        and tk = demoTokens and intent = "demoIntent\<lparr>nonce := 1\<rparr>" and sg = 18
        and signer = 18, THEN conjunct2] r(2,3,5)
    by simp
  show ?thesis
    unfolding Y_def [symmetric] using n one replay inv late by blast
qed

subsection \<open>Share accounting\<close>

lemma round_trip_upper:
  fixes x A A' B a :: nat
  assumes "a * A \<le> x * B" and "A' \<le> A + x" and "0 < B + a"
  shows "a * A' div (B + a) \<le> x"
proof -
  have "a * A' \<le> a * (A + x)"
    using assms(2) by simp
  also have "\<dots> = a * A + a * x"
    by (simp add: algebra_simps)
  also have "\<dots> \<le> x * B + a * x"
    using assms(1) by simp
  also have "\<dots> = x * (B + a)"
    by (simp add: algebra_simps)
  finally have "a * A' div (B + a) \<le> x * (B + a) div (B + a)"
    by (rule div_le_mono)
  then show ?thesis
    using assms(3) by (auto split: if_splits)
qed

lemma round_trip_lower:
  fixes x A B a r :: nat
  assumes A: "0 < A" and B: "0 < B"
    and a: "a = x * B div A" and r: "r = a * (A + x) div (B + a)"
  shows "x * B < (r + 1) * B + A"
proof (cases "x \<le> r")
  case True
  then have "x * B \<le> r * B"
    by (rule mult_le_mono1)
  moreover have "(r + 1) * B = r * B + B"
    by (simp add: algebra_simps)
  ultimately show ?thesis
    using A by linarith
next
  case False
  then have xr: "r + 1 \<le> x"
    by simp
  have "a * (A + x) < (r + 1) * (B + a)"
    unfolding r using B by (simp add: dividend_less_div_times)
  then have "a * A + a * x < (r + 1) * B + (r + 1) * a"
    by (simp add: algebra_simps)
  moreover have "(r + 1) * a \<le> x * a"
    using xr by (rule mult_le_mono1)
  ultimately have 1: "a * A < (r + 1) * B"
    by (simp add: algebra_simps)
  have "x * B < a * A + A"
    unfolding a using A dividend_less_div_times [of A "x * B"] by (simp add: algebra_simps)
  with 1 show ?thesis
    by simp
qed


lemma transferFrom_balanceOf:
  assumes "transferFrom tk t sp from to n = Inr tk'"
  shows "balanceOf tk' t' a =
           (if t' = t \<and> from \<noteq> to \<and> a = from then balanceOf tk t a - n
            else if t' = t \<and> from \<noteq> to \<and> a = to then balanceOf tk t a + n
            else balanceOf tk t' a)"
  using assms
  by (auto simp: transferFrom_def Let_def bindE_Inr_iff checked_add_Inr_iff checked_sub_Inr_iff
        balanceOf_setBalance balanceOf_setAllowance)

lemma deposit_InrD:
  assumes "deposit sender v tk x rc = Inr (minted, v1, tk1)"
  shows "x \<noteq> 0
       \<and> totalAssets v tk =
           Inr (balanceOf tk (quoteToken v) (self v) + balanceOf tk (baseToken v) (self v))
       \<and> (if totalSupply v = 0 then minted = x
           else balanceOf tk (quoteToken v) (self v) + balanceOf tk (baseToken v) (self v) \<noteq> 0
             \<and> minted = x * totalSupply v
                 div (balanceOf tk (quoteToken v) (self v) + balanceOf tk (baseToken v) (self v)))
       \<and> transferFrom tk (quoteToken v) (self v) sender (self v) x = Inr tk1
       \<and> totalSupply v1 = totalSupply v + minted
       \<and> self v1 = self v \<and> quoteToken v1 = quoteToken v \<and> baseToken v1 = baseToken v"
  using assms unfolding deposit_def totalAssets_def
  by (auto simp: bindE_Inr_iff checked_add_Inr_iff checked_mul_Inr_iff split: if_splits)

lemma redeem_InrD:
  assumes "redeem sender v tk burned rc own = Inr (r, v2, tk2)"
  shows "totalSupply v \<noteq> 0
       \<and> r = burned * (balanceOf tk (quoteToken v) (self v) + balanceOf tk (baseToken v) (self v))
               div totalSupply v
       \<and> burned \<le> shares v own"
  using assms unfolding redeem_def totalAssets_def
  by (auto simp: bindE_Inr_iff checked_add_Inr_iff checked_mul_Inr_iff checked_sub_Inr_iff
        split: if_splits)

text \<open>
  C5, as claimed: in every vault state, depositing \<open>x > 0\<close> and redeeming the minted
  shares with no cycle in between returns at most \<open>x\<close>, whatever other depositors do
  in between. Under the spec's issuance rule it does not, in two ways. In a vault that
  holds assets but has issued no shares, the first depositor's shares are the whole
  supply: depositing 3 and redeeming at once returns the deposit and the 5 tokens
  found. And a deposit by somebody else in between leaves its rounding loss to the
  shares already issued: 100 deposited into \<open>driftVault\<close> buy 1 share, the next
  depositor's 199 buy 1 share as well, and the first share then redeems for 124.
\<close>

theorem round_trip_counterexample:
  "totalSupply demoVault = 0
   \<and> totalAssets demoVault donatedTokens = Inr 5
   \<and> \<not> isl (deposit 12 demoVault donatedTokens 3 12)
   \<and> fst (projr (deposit 12 demoVault donatedTokens 3 12)) = 3
   \<and> \<not> isl (redeem 12 (fst (snd (projr (deposit 12 demoVault donatedTokens 3 12))))
               (snd (snd (projr (deposit 12 demoVault donatedTokens 3 12)))) 3 12 12)
   \<and> fst (projr (redeem 12 (fst (snd (projr (deposit 12 demoVault donatedTokens 3 12))))
               (snd (snd (projr (deposit 12 demoVault donatedTokens 3 12)))) 3 12 12)) = 8
   \<and> deposit 12 driftVault driftTokens 100 12 = Inr drift1
   \<and> fst drift1 = 1
   \<and> deposit 14 (fst (snd drift1)) (snd (snd drift1)) 199 14 = Inr drift2
   \<and> \<not> isl (redeem 12 (fst (snd drift2)) (snd (snd drift2)) 1 12 12)
   \<and> fst (projr (redeem 12 (fst (snd drift2)) (snd (snd drift2)) 1 12 12)) = 124"
  by (simp add: drift2_def drift1_def driftVault_def driftTokens_def donatedTokens_def
        deposit_def redeem_def totalAssets_def demo_defs)

text \<open>
  C5, amended: in a vault with distinct base and quote tokens that has shares
  outstanding, or neither shares nor assets, whenever a deposit of \<open>x\<close> and the
  redemption of the minted shares directly after it, with no other operation in
  between, both succeed, \<open>x\<close> is positive and the amount \<open>r\<close> returned is at most
  \<open>x\<close>. For a depositor other than the vault itself the difference is rounding: in
  the empty vault \<open>r = x\<close>, and with shares outstanding
  \<open>(x - r) * totalSupply < totalAssets + totalSupply\<close>, the totals before the
  deposit: less than the price of one share, and one unit.
\<close>

theorem deposit_redeem_round_trip:
  assumes tokens: "baseToken v \<noteq> quoteToken v"
    and state: "0 < totalSupply v \<or> totalAssets v tk = Inr 0"
    and dep: "deposit sender v tk x rc = Inr (minted, v1, tk1)"
    and red: "redeem sender2 v1 tk1 minted rc2 own = Inr (r, v2, tk2)"
  shows "0 < x \<and> r \<le> x
       \<and> (sender \<noteq> self v \<and> totalSupply v = 0 \<longrightarrow> r = x)
       \<and> (sender \<noteq> self v \<and> 0 < totalSupply v \<longrightarrow>
            (\<exists>ta. totalAssets v tk = Inr ta \<and> (x - r) * totalSupply v < ta + totalSupply v))"
proof -
  define A where "A = balanceOf tk (quoteToken v) (self v) + balanceOf tk (baseToken v) (self v)"
  define A' where
    "A' = balanceOf tk1 (quoteToken v) (self v) + balanceOf tk1 (baseToken v) (self v)"
  define B where "B = totalSupply v"
  note d = deposit_InrD [OF dep, folded A_def B_def]
  note rd = redeem_InrD [OF red]
  have x: "0 < x" and ta: "totalAssets v tk = Inr A"
    and tf: "transferFrom tk (quoteToken v) (self v) sender (self v) x = Inr tk1"
    using d by simp_all
  have A'_le: "A' \<le> A + x"
    unfolding A'_def A_def transferFrom_balanceOf [OF tf] using tokens by auto
  have A'_eq: "sender \<noteq> self v \<Longrightarrow> A' = A + x"
    unfolding A'_def A_def transferFrom_balanceOf [OF tf] using tokens by auto
  have r: "r = minted * A' div (B + minted)" and pos: "0 < B + minted"
    using rd d by (simp_all add: A'_def B_def)
  have mA: "minted * A \<le> x * B"
  proof (cases "B = 0")
    case True
    with state ta have "A = 0"
      by (simp add: B_def)
    then show ?thesis
      by simp
  next
    case False
    with d have "minted = x * B div A"
      by simp
    then show ?thesis
      by simp
  qed
  have upper: "r \<le> x"
    unfolding r using mA A'_le pos by (rule round_trip_upper)
  have empty: "r = x" if "sender \<noteq> self v" and "totalSupply v = 0"
  proof -
    from that state ta have "A = 0" and "B = 0"
      by (simp_all add: B_def)
    moreover from d \<open>B = 0\<close> have "minted = x"
      by simp
    ultimately show ?thesis
      unfolding r using A'_eq [OF that(1)] x by simp
  qed
  have lower: "(x - r) * B < A + B" if "sender \<noteq> self v" and "0 < totalSupply v"
  proof -
    from that d have "A \<noteq> 0" and m: "minted = x * B div A" and "0 < B"
      by (simp_all add: B_def)
    then have "x * B < (r + 1) * B + A"
      using round_trip_lower [of A B minted x r] r A'_eq [OF that(1)] by simp
    then have "x * B < r * B + (A + B)"
      by (simp add: algebra_simps)
    with \<open>0 < B\<close> show ?thesis
      unfolding diff_mult_distrib by linarith
  qed
  show ?thesis
    using x upper empty lower ta by (auto simp: B_def)
qed

theorem deposit_redeem_round_trip_witness:
  "fst (projr (deposit 12 pricedVault pricedTokens 4 12)) = 2
   \<and> fst (projr (redeem 12 (fst (snd (projr (deposit 12 pricedVault pricedTokens 4 12))))
               (snd (snd (projr (deposit 12 pricedVault pricedTokens 4 12)))) 2 12 12)) = 3
   \<and> totalAssets pricedVault pricedTokens = Inr 15
   \<and> (4 - (3::nat)) * totalSupply pricedVault < 15 + totalSupply pricedVault"
proof -
  define D where "D = deposit 12 pricedVault pricedTokens 4 12"
  define E where "E = redeem 12 (fst (snd (projr D))) (snd (snd (projr D))) 2 12 12"
  have cfg: "baseToken pricedVault \<noteq> quoteToken pricedVault"
    "0 < totalSupply pricedVault \<or> totalAssets pricedVault pricedTokens = Inr 0"
    "12 \<noteq> self pricedVault" "totalSupply pricedVault = 10"
    "totalAssets pricedVault pricedTokens = Inr 15"
    by (simp_all add: pricedVault_def pricedTokens_def totalAssets_def demo_defs)
  have D: "D = Inr (2, fst (snd (projr D)), snd (snd (projr D)))"
    by (simp add: D_def deposit_def totalAssets_def pricedVault_def pricedTokens_def demo_defs)
  have E: "E = Inr (3, fst (snd (projr E)), snd (snd (projr E)))"
    by (simp add: E_def D_def deposit_def redeem_def totalAssets_def pricedVault_def
          pricedTokens_def demo_defs)
  have d2: "fst (projr D) = 2"
    by (subst D) simp
  have e3: "fst (projr E) = 3"
    by (subst E) simp
  note T = deposit_redeem_round_trip [OF cfg(1,2) D [unfolded D_def] E [unfolded E_def D_def]]
  from T cfg(3,4,5) have b: "(4 - (3::nat)) * totalSupply pricedVault < 15 + totalSupply pricedVault"
    by auto
  show ?thesis
    using d2 [unfolded D_def] e3 [unfolded E_def D_def] cfg(5) b by blast
qed

text \<open>
  C6. A deposit of zero assets is rejected, for every caller, vault state, token
  ledger and receiver.
\<close>

theorem deposit_zero_rejected:
  "deposit sender v tk 0 receiver = Inl ZeroDeposit"
  by (simp add: deposit_def)



end
